theory Spec2Isabelle
  imports Main
begin

section \<open>Strings and errors\<close>

text \<open>
  Go strings are byte sequences; they are modelled as \<open>string\<close> (a list of 8-bit
  characters). \<open>strings.ToLower\<close> is modelled on the ASCII range: the bytes
  \<open>A\<close>..\<open>Z\<close> (65..90) are moved to \<open>a\<close>..\<open>z\<close>, every other byte is kept.
  (Go also lower-cases letters outside ASCII; header names and the addresses of the
  examples are ASCII.)
\<close>

definition lower_byte :: "char \<Rightarrow> char" where
  "lower_byte c =
     (let n = (of_char c :: nat) in if 65 \<le> n \<and> n \<le> 90 then char_of (n + 32) else c)"

definition strings_ToLower :: "string \<Rightarrow> string" where
  "strings_ToLower s = map lower_byte s"

text \<open>\<open>strings.HasPrefix(s, prefix)\<close> and \<open>strings.Contains(s, substr)\<close>.\<close>

fun strings_HasPrefix :: "string \<Rightarrow> string \<Rightarrow> bool" where
  "strings_HasPrefix s [] = True"
| "strings_HasPrefix [] (p # ps) = False"
| "strings_HasPrefix (c # cs) (p # ps) = (c = p \<and> strings_HasPrefix cs ps)"

fun strings_Contains :: "string \<Rightarrow> string \<Rightarrow> bool" where
  "strings_Contains [] substr = (substr = [])"
| "strings_Contains (c # cs) substr =
     (strings_HasPrefix (c # cs) substr \<or> strings_Contains cs substr)"

text \<open>
  \<open>strings.Split(s, sep)\<close> for a separator of one byte (the only use in the sources is
  \<open>strings.Split(username, "@")\<close>): the pieces of \<open>s\<close> between the separators, at
  least one piece.
\<close>

fun strings_Split :: "string \<Rightarrow> char \<Rightarrow> string list" where
  "strings_Split [] sep = [[]]"
| "strings_Split (c # cs) sep =
     (if c = sep then [] # strings_Split cs sep
      else (case strings_Split cs sep of
              [] \<Rightarrow> [[c]]
            | p # ps \<Rightarrow> (c # p) # ps))"

text \<open>
  Go \<open>error\<close> values. The two sentinels are the values the storage wrapper compares
  with (\<open>imapsql.ErrUserDoesntExists\<close>, \<open>backend.ErrNoSuchMailbox\<close>); \<open>SMTPError\<close> is
  \<open>smtp.SMTPError\<close> with its fields Code, EnhancedCode and Message; \<open>Err\<close> is any
  other error, with its text; \<open>Panic\<close> is a run-time panic.
\<close>

datatype error =
    ErrUserDoesntExists
  | ErrNoSuchMailbox
  | SMTPError nat "nat \<times> nat \<times> nat" string
  | Err string
  | Panic string

section \<open>Header sets\<close>

text \<open>
  Modelled from the spec: \<open>textproto.Header\<close> is a type of the go-message library, not
  of these sources. Section 3 of the spec describes it as an ordered, possibly repeating
  sequence of (name, value) pairs, case-insensitive by name and append-only.
  \<open>Header_FieldsByKey\<close> gives the fields an iteration \<open>h.FieldsByKey(key)\<close> visits;
  \<open>Header_Add\<close> is \<open>h.Add(k, v)\<close>.
\<close>

type_synonym Header = "(string \<times> string) list"

definition Header_FieldsByKey :: "Header \<Rightarrow> string \<Rightarrow> (string \<times> string) list" where
  "Header_FieldsByKey h key =
     filter (\<lambda>f. strings_ToLower (fst f) = strings_ToLower key) h"

definition Header_Add :: "Header \<Rightarrow> string \<Rightarrow> string \<Rightarrow> Header" where
  "Header_Add h k v = h @ [(k, v)]"

section \<open>The sign\_dkim modifier\<close>

datatype Canonicalization = CanonicalizationRelaxed | CanonicalizationSimple

text \<open>
  The \<open>Modifier\<close> struct. The private key (\<open>crypto.Signer\<close>) is a value of a type
  parameter; \<open>sigExpiry\<close> is a \<open>time.Duration\<close> in nanoseconds; the logger is left out.
\<close>

record 'k Modifier =
  instName :: string
  domain :: string
  selector :: string
  signer :: 'k
  oversignHeader :: "string list"
  signHeader :: "string list"
  headerCanon :: Canonicalization
  bodyCanon :: Canonicalization
  sigExpiry :: int
  hash :: nat

text \<open>
  The inner loop of \<open>fieldsToSign\<close>,
  \<^verbatim>\<open>for field := h.FieldsByKey(key); field.Next(); { res = append(res, key) }\<close>:
  one \<open>append\<close> for each field the iteration visits.
\<close>

fun append_per_field :: "(string \<times> string) list \<Rightarrow> string \<Rightarrow> string list \<Rightarrow> string list" where
  "append_per_field [] key res = res"
| "append_per_field (field # rest) key res = append_per_field rest key (res @ [key])"

text \<open>
  The two outer loops of \<open>fieldsToSign\<close>. The loop state is the pair of the set \<open>seen\<close>
  (the keys of the Go map) and the slice \<open>res\<close>. The first loop appends the key once
  more after the inner loop; the second does not.
\<close>

fun oversign_loop :: "Header \<Rightarrow> string list \<Rightarrow> string set \<times> string list \<Rightarrow> string set \<times> string list" where
  "oversign_loop h [] (seen, res) = (seen, res)"
| "oversign_loop h (key # keys) (seen, res) =
     (if strings_ToLower key \<in> seen then oversign_loop h keys (seen, res)
      else oversign_loop h keys
             (insert (strings_ToLower key) seen,
              append_per_field (Header_FieldsByKey h key) key res @ [key]))"

fun sign_loop :: "Header \<Rightarrow> string list \<Rightarrow> string set \<times> string list \<Rightarrow> string set \<times> string list" where
  "sign_loop h [] (seen, res) = (seen, res)"
| "sign_loop h (key # keys) (seen, res) =
     (if strings_ToLower key \<in> seen then sign_loop h keys (seen, res)
      else sign_loop h keys
             (insert (strings_ToLower key) seen,
              append_per_field (Header_FieldsByKey h key) key res))"

definition fieldsToSign :: "'k Modifier \<Rightarrow> Header \<Rightarrow> string list" where
  "fieldsToSign m h =
     snd (sign_loop h (signHeader m) (oversign_loop h (oversignHeader m) ({}, [])))"

text \<open>
  \<open>module.MsgMetadata\<close> (declared outside these sources): the one field the modifier
  reads, and the per-message \<open>state\<close> of the modifier (without its logger).
\<close>

record MsgMetadata =
  OriginalFrom :: string

record 'k state =
  s_m :: "'k Modifier"
  s_meta :: MsgMetadata

definition ModStateForMsg :: "'k Modifier \<Rightarrow> MsgMetadata \<Rightarrow> error option \<times> 'k state" where
  "ModStateForMsg m msgMeta = (None, \<lparr>s_m = m, s_meta = msgMeta\<rparr>)"

text \<open>The Go functions return \<open>(string, error)\<close>; a \<open>nil\<close> error is \<open>None\<close>.\<close>

definition RewriteSender :: "'k state \<Rightarrow> string \<Rightarrow> string \<times> error option" where
  "RewriteSender s mailFrom = (mailFrom, None)"

definition RewriteRcpt :: "'k state \<Rightarrow> string \<Rightarrow> string \<times> error option" where
  "RewriteRcpt s rcptTo = (rcptTo, None)"

text \<open>
  \<open>dkim.SignOptions\<close> as \<open>RewriteBody\<close> fills it. \<open>Expiration\<close> is \<open>None\<close> for the zero
  \<open>time.Time\<close>; times are nanoseconds as integers.
\<close>

record 'k SignOptions =
  Domain' :: string
  Selector :: string
  Identifier :: string
  Signer :: 'k
  Hash :: nat
  HeaderCanonicalization :: Canonicalization
  BodyCanonicalization :: Canonicalization
  HeaderKeys :: "string list"
  Expiration :: "int option"

text \<open>
  The first part of \<open>RewriteBody\<close>: the identifier and the options handed to
  \<open>dkim.NewSigner\<close>. \<open>now\<close> is the value of \<open>time.Now()\<close>.
\<close>

definition signOptions :: "'k state \<Rightarrow> Header \<Rightarrow> int \<Rightarrow> 'k SignOptions" where
  "signOptions s h now =
     (let ident0 = OriginalFrom (s_meta s);
          ident = (if \<not> strings_Contains ident0 ''@'' then ident0 @ ''@'' @ domain (s_m s)
                   else ident0)
      in \<lparr>Domain' = domain (s_m s),
          Selector = selector (s_m s),
          Identifier = ident,
          Signer = signer (s_m s),
          Hash = hash (s_m s),
          HeaderCanonicalization = headerCanon (s_m s),
          BodyCanonicalization = bodyCanon (s_m s),
          HeaderKeys = fieldsToSign (s_m s) h,
          Expiration = (if sigExpiry (s_m s) \<noteq> 0 then Some (now + sigExpiry (s_m s)) else None)\<rparr>)"

text \<open>
  The library calls of \<open>RewriteBody\<close> are parameters: \<open>dkim.NewSigner\<close>,
  \<open>textproto.WriteHeader\<close> into the signer, \<open>io.Copy\<close> of the body into the signer,
  the signer's \<open>Close\<close> and \<open>SignatureValue\<close>. \<open>'sg\<close> is the state of the signer,
  passed on from call to call. A message body (\<open>buffer.Buffer\<close>) is what its \<open>Open\<close>
  returns: an error, or the bytes the reader gives.
\<close>

record ('k, 'sg) dkim_lib =
  dkim_NewSigner :: "'k SignOptions \<Rightarrow> error + 'sg"
  textproto_WriteHeader :: "'sg \<Rightarrow> Header \<Rightarrow> error option \<times> 'sg"
  io_Copy :: "'sg \<Rightarrow> string \<Rightarrow> error option \<times> 'sg"
  signer_Close :: "'sg \<Rightarrow> error option \<times> 'sg"
  signer_SignatureValue :: "'sg \<Rightarrow> string"

type_synonym Buffer = "error + string"

text \<open>
  A \<open>textproto.Header\<close> value as a Go variable holds it. In the go-message library
  the struct has two fields: the slice \<open>l\<close> of the header fields, and the map \<open>m\<close>
  from a key to the fields of that key. \<open>hv_l\<close> is the slice, as the list of its
  elements up to its length; \<open>hv_m\<close> is the content of the map object (\<open>None\<close> for a
  \<open>nil\<close> map), indexed here by the lower-cased name, keys being compared up to case.
\<close>

type_synonym KeyMap = "string \<Rightarrow> (string \<times> string) list"

record HeaderValue =
  hv_l :: Header
  hv_m :: "KeyMap option"

text \<open>
  \<open>h.Add(k, v)\<close> on a variable \<open>h\<close> of type \<open>textproto.Header\<close> (the method has a
  pointer receiver): it makes the map when it is \<open>nil\<close>, appends the field to the
  slice of \<open>h\<close> and adds it to the map under its key. (The library writes the key
  in its canonical spelling; names are compared up to case, and the model keeps the
  spelling it is given.)
\<close>

definition HeaderValue_Add :: "HeaderValue \<Rightarrow> string \<Rightarrow> string \<Rightarrow> HeaderValue" where
  "HeaderValue_Add hv k v =
     (let km = (case hv_m hv of None \<Rightarrow> (\<lambda>key. []) | Some km0 \<Rightarrow> km0) in
      \<lparr>hv_l = Header_Add (hv_l hv) k v,
       hv_m = Some (km(strings_ToLower k := km (strings_ToLower k) @ [(k, v)]))\<rparr>)"

text \<open>
  Go passes a struct by value. A function that takes a \<open>textproto.Header\<close> works on
  a copy: the copy's slice starts as the caller's, and an \<open>append\<close> to it gives the
  copy a longer slice and leaves the caller's slice with the length it had; the copy's
  map is the caller's map object, unless that is \<open>nil\<close>. \<open>held_by_caller h copy\<close> is
  the value the caller holds in its variable once the function, whose copy has become
  \<open>copy\<close>, has returned.
\<close>

definition held_by_caller :: "HeaderValue \<Rightarrow> HeaderValue \<Rightarrow> HeaderValue" where
  "held_by_caller h copy =
     \<lparr>hv_l = hv_l h,
      hv_m = (case hv_m h of None \<Rightarrow> None | Some km \<Rightarrow> hv_m copy)\<rparr>"

text \<open>
  \<open>RewriteBody(h textproto.Header, body buffer.Buffer) error\<close> takes the header by
  value and returns an error only. The model returns that error together with the
  header value the caller holds when the call has returned: on the error paths the
  copy has not been touched; on the last path \<open>h.Add\<close> has changed the copy. The
  header fields that \<open>fieldsToSign\<close> and \<open>textproto.WriteHeader\<close> read are those of
  the slice. The log lines and the \<open>signer.Close()\<close> calls whose result is dropped on
  the error paths are left out: they touch neither result.
\<close>

definition RewriteBody ::
  "('k, 'sg) dkim_lib \<Rightarrow> int \<Rightarrow> 'k state \<Rightarrow> HeaderValue \<Rightarrow> Buffer
     \<Rightarrow> error option \<times> HeaderValue" where
  "RewriteBody lib now s h body =
     (case dkim_NewSigner lib (signOptions s (hv_l h) now) of
        Inl err \<Rightarrow> (Some err, h)
      | Inr sg0 \<Rightarrow>
          (case textproto_WriteHeader lib sg0 (hv_l h) of
             (Some err, sg1) \<Rightarrow> (Some err, h)
           | (None, sg1) \<Rightarrow>
               (case body of
                  Inl err \<Rightarrow> (Some err, h)
                | Inr r \<Rightarrow>
                    (case io_Copy lib sg1 r of
                       (Some err, sg2) \<Rightarrow> (Some err, h)
                     | (None, sg2) \<Rightarrow>
                         (case signer_Close lib sg2 of
                            (Some err, sg3) \<Rightarrow> (Some err, h)
                          | (None, sg3) \<Rightarrow>
                              (let copy = HeaderValue_Add h ''DKIM-Signature''
                                            (signer_SignatureValue lib sg3)
                               in (None, held_by_caller h copy)))))))"

subsection \<open>A modifier and a signer to run the module on\<close>

text \<open>
  A configured modifier for the examples (\<open>hash = 5\<close> is \<open>crypto.SHA256\<close>), and a
  stand-in for the signing library: the signer's state is the bytes written to it, the
  signature value is made of the identifier and those bytes, and options without a
  selector are refused.
\<close>

definition test_modifier :: "string list \<Rightarrow> string list \<Rightarrow> unit Modifier" where
  "test_modifier oversign sign =
     \<lparr>instName = ''test'', domain = ''example.org'', selector = ''default'', signer = (),
      oversignHeader = oversign, signHeader = sign,
      headerCanon = CanonicalizationRelaxed, bodyCanon = CanonicalizationSimple,
      sigExpiry = 0, hash = 5\<rparr>"

definition test_state :: "string list \<Rightarrow> string list \<Rightarrow> string \<Rightarrow> unit state" where
  "test_state oversign sign sender =
     \<lparr>s_m = test_modifier oversign sign, s_meta = \<lparr>OriginalFrom = sender\<rparr>\<rparr>"

definition test_lib :: "(unit, string) dkim_lib" where
  "test_lib =
     \<lparr>dkim_NewSigner = (\<lambda>opts.
         if Selector opts = [] then Inl (Err ''dkim: no selector specified'')
         else Inr (''i='' @ Identifier opts @ ''; '')),
      textproto_WriteHeader = (\<lambda>sg h. (None, sg @ concat (map (\<lambda>f. fst f @ '': '' @ snd f @ ''; '') h))),
      io_Copy = (\<lambda>sg r. (None, sg @ r)),
      signer_Close = (\<lambda>sg. (None, sg)),
      signer_SignatureValue = (\<lambda>sg. ''v=1; '' @ sg)\<rparr>"

text \<open>
  A header value whose map agrees with its slice, as the library's reader builds it.
\<close>

definition HeaderValue_of :: "Header \<Rightarrow> HeaderValue" where
  "HeaderValue_of fs =
     \<lparr>hv_l = fs, hv_m = Some (\<lambda>key. filter (\<lambda>f. strings_ToLower (fst f) = key) fs)\<rparr>"

section \<open>The SQL storage module\<close>

text \<open>
  The \<open>Storage\<close> struct, without its backend handle, logger and resolver. The backend
  (go-imap-sql) is outside these sources: its operations are parameters, and \<open>'b\<close> is
  the state a backend handle stands for.
\<close>

record Storage =
  storagePerDomain :: bool
  authPerDomain :: bool
  authDomains :: "string list"
  junkMbox :: string
  hostname :: string

record 'b imapsql_Delivery =
  d_AddRcpt :: "string \<Rightarrow> Header \<Rightarrow> 'b \<Rightarrow> error option \<times> 'b"
  d_Abort :: "'b \<Rightarrow> error option \<times> 'b"
  d_Commit :: "'b \<Rightarrow> error option \<times> 'b"

text \<open>
  The \<open>delivery\<close> struct: \<open>d_state\<close> is the state of the backend's delivery \<open>d.d\<close>,
  \<open>addedRcpts\<close> the key set of the Go map. The struct has no other field but the
  message metadata, which \<open>AddRcpt\<close>, \<open>Commit\<close> and \<open>Abort\<close> do not read.
\<close>

record 'b delivery =
  store :: Storage
  d_state :: 'b
  mailFrom :: string
  addedRcpts :: "string set"

text \<open>
  Modelled from the spec: \<open>address.Split\<close> belongs to this repository's package
  \<open>address\<close>, which is not among the sources. Section 4.4 of the spec gives the shared
  policy as "account name = substring before first @ (or whole string if no @)". The
  spec says that a malformed address fails and does not say which addresses are
  malformed, so \<open>AddRcpt\<close> below takes the split function as a parameter (its error is
  the text of \<open>err.Error()\<close>), and this instance, which fails nowhere, serves in the
  examples.
\<close>

definition address_Split :: "string \<Rightarrow> string + string \<times> string" where
  "address_Split addr =
     Inr (takeWhile (\<lambda>c. c \<noteq> CHR ''@'') addr, drop 1 (dropWhile (\<lambda>c. c \<noteq> CHR ''@'') addr))"

definition AddRcpt ::
  "(string \<Rightarrow> string + string \<times> string) \<Rightarrow> 'b imapsql_Delivery \<Rightarrow> 'b delivery \<Rightarrow> string
     \<Rightarrow> error option \<times> 'b delivery" where
  "AddRcpt split ops dl rcptTo =
     (case (if storagePerDomain (store dl) then Inr rcptTo
            else (case split rcptTo of
                    Inl msg \<Rightarrow>
                      Inl (SMTPError 501 (5, 1, 3) (''Invalid recipient address: '' @ msg))
                  | Inr (mailbox, domainPart) \<Rightarrow> Inr mailbox)) of
        Inl e \<Rightarrow> (Some e, dl)
      | Inr name \<Rightarrow>
          (let accountName = strings_ToLower name in
           if accountName \<in> addedRcpts dl then (None, dl)
           else
             (let userHeader = Header_Add [] ''Delivered-To'' rcptTo in
              case d_AddRcpt ops (strings_ToLower accountName) userHeader (d_state dl) of
                (Some err, b) \<Rightarrow>
                  (if err = ErrUserDoesntExists \<or> err = ErrNoSuchMailbox
                   then (Some (SMTPError 550 (5, 1, 1) ''User doesn't exist''),
                         dl\<lparr>d_state := b\<rparr>)
                   else (Some err, dl\<lparr>d_state := b\<rparr>))
              | (None, b) \<Rightarrow>
                  (None, dl\<lparr>d_state := b, addedRcpts := insert accountName (addedRcpts dl)\<rparr>))))"

text \<open>
  The account name \<open>AddRcpt\<close> arrives at before it looks into \<open>addedRcpts\<close> (the
  value of \<open>accountName\<close> after \<open>accountName = strings.ToLower(accountName)\<close>), or
  \<open>None\<close> where \<open>address.Split\<close> fails. The theorems below state what \<open>AddRcpt\<close>
  does in terms of it.
\<close>

definition accountOf ::
  "(string \<Rightarrow> string + string \<times> string) \<Rightarrow> Storage \<Rightarrow> string \<Rightarrow> string option" where
  "accountOf split st rcptTo =
     (if storagePerDomain st then Some (strings_ToLower rcptTo)
      else (case split rcptTo of
              Inl msg \<Rightarrow> None
            | Inr (mailbox, domainPart) \<Rightarrow> Some (strings_ToLower mailbox)))"

definition Abort :: "'b imapsql_Delivery \<Rightarrow> 'b delivery \<Rightarrow> error option \<times> 'b delivery" where
  "Abort ops dl = (case d_Abort ops (d_state dl) of (e, b) \<Rightarrow> (e, dl\<lparr>d_state := b\<rparr>))"

definition Commit :: "'b imapsql_Delivery \<Rightarrow> 'b delivery \<Rightarrow> error option \<times> 'b delivery" where
  "Commit ops dl = (case d_Commit ops (d_state dl) of (e, b) \<Rightarrow> (e, dl\<lparr>d_state := b\<rparr>))"

text \<open>\<open>Start\<close>: \<open>startDelivery\<close> is the result of \<open>store.back.StartDelivery()\<close>.\<close>

definition Start :: "error + 'b \<Rightarrow> Storage \<Rightarrow> string \<Rightarrow> error + 'b delivery" where
  "Start startDelivery st sender =
     (case startDelivery of
        Inl err \<Rightarrow> Inl err
      | Inr b \<Rightarrow> Inr \<lparr>store = st, d_state = b, mailFrom = sender, addedRcpts = {}\<rparr>)"

text \<open>
  \<open>GetOrCreateUser\<close>: \<open>back\<close> is \<open>store.back.GetOrCreateUser\<close>, called with the account
  name. \<open>parts[0]\<close> panics on an empty slice (\<open>strings.Split\<close> never returns one).
\<close>

definition GetOrCreateUser :: "(string \<Rightarrow> error + 'u) \<Rightarrow> Storage \<Rightarrow> string \<Rightarrow> error + 'u" where
  "GetOrCreateUser back st username =
     (if storagePerDomain st then
        (if \<not> strings_Contains username ''@''
         then Inl (Err ''GetOrCreateUser: username@domain required'')
         else back username)
      else
        (case strings_Split username (CHR ''@'') of
           [] \<Rightarrow> Inl (Panic ''index out of range'')
         | accountName # rest \<Rightarrow> back accountName))"

subsection \<open>A backend to run the module on\<close>

text \<open>
  A small backend delivery for the examples: it knows a list of accounts, records the
  accounts it was given, and refuses every call once \<open>Commit\<close> or \<open>Abort\<close> has been
  called on it.
\<close>

record test_delivery =
  known :: "string list"
  given :: "string list"
  finished :: bool

definition test_ops :: "test_delivery imapsql_Delivery" where
  "test_ops =
     \<lparr>d_AddRcpt = (\<lambda>account hdr b.
         if finished b then (Some (Err ''delivery is finished''), b)
         else if account \<in> set (known b) then (None, b\<lparr>given := given b @ [account]\<rparr>)
         else (Some ErrUserDoesntExists, b)),
      d_Abort = (\<lambda>b.
         if finished b then (Some (Err ''delivery is finished''), b)
         else (None, b\<lparr>finished := True\<rparr>)),
      d_Commit = (\<lambda>b.
         if finished b then (Some (Err ''delivery is finished''), b)
         else (None, b\<lparr>finished := True\<rparr>))\<rparr>"

definition test_store :: "bool \<Rightarrow> Storage" where
  "test_store perDomain =
     \<lparr>storagePerDomain = perDomain, authPerDomain = False, authDomains = [],
      junkMbox = ''Junk'', hostname = ''mx.example.org''\<rparr>"

definition test_start :: "bool \<Rightarrow> string list \<Rightarrow> test_delivery delivery" where
  "test_start perDomain accounts =
     \<lparr>store = test_store perDomain,
      d_state = \<lparr>known = accounts, given = [], finished = False\<rparr>,
      mailFrom = ''sender@example.org'', addedRcpts = {}\<rparr>"

section \<open>Properties of the header selection\<close>

lemma append_per_field_eq:
  "append_per_field fs key res = res @ replicate (length fs) key"
  by (induction fs arbitrary: res) (simp_all add: replicate_app_Cons_same)

lemma oversign_loop_count:
  "oversign_loop h keys (seen, res) = (seen', res') \<Longrightarrow>
   seen' = seen \<union> strings_ToLower ` set keys \<and>
   length (filter (\<lambda>x. strings_ToLower x = strings_ToLower n) res') =
     length (filter (\<lambda>x. strings_ToLower x = strings_ToLower n) res) +
     (if strings_ToLower n \<in> strings_ToLower ` set keys \<and> strings_ToLower n \<notin> seen
      then Suc (length (Header_FieldsByKey h n)) else 0)"
proof (induction keys arbitrary: seen res)
  case Nil
  then show ?case by simp
next
  case (Cons key keys)
  show ?case
  proof (cases "strings_ToLower key \<in> seen")
    case True
    with Cons.prems have "oversign_loop h keys (seen, res) = (seen', res')" by simp
    from Cons.IH[OF this] True show ?thesis by auto
  next
    case False
    with Cons.prems have "oversign_loop h keys (insert (strings_ToLower key) seen,
        append_per_field (Header_FieldsByKey h key) key res @ [key]) = (seen', res')" by simp
    from Cons.IH[OF this] False show ?thesis
      by (auto simp: append_per_field_eq Header_FieldsByKey_def)
  qed
qed

lemma sign_loop_count:
  "sign_loop h keys (seen, res) = (seen', res') \<Longrightarrow>
   seen' = seen \<union> strings_ToLower ` set keys \<and>
   length (filter (\<lambda>x. strings_ToLower x = strings_ToLower n) res') =
     length (filter (\<lambda>x. strings_ToLower x = strings_ToLower n) res) +
     (if strings_ToLower n \<in> strings_ToLower ` set keys \<and> strings_ToLower n \<notin> seen
      then length (Header_FieldsByKey h n) else 0)"
proof (induction keys arbitrary: seen res)
  case Nil
  then show ?case by simp
next
  case (Cons key keys)
  show ?case
  proof (cases "strings_ToLower key \<in> seen")
    case True
    with Cons.prems have "sign_loop h keys (seen, res) = (seen', res')" by simp
    from Cons.IH[OF this] True show ?thesis by auto
  next
    case False
    with Cons.prems have "sign_loop h keys (insert (strings_ToLower key) seen,
        append_per_field (Header_FieldsByKey h key) key res) = (seen', res')" by simp
    note ih = Cons.IH[OF this]
    show ?thesis
    proof (cases "strings_ToLower key = strings_ToLower n")
      case True
      with ih False show ?thesis
        by (auto simp: append_per_field_eq Header_FieldsByKey_def)
    next
      case neq: False
      with ih False show ?thesis
        by (auto simp: append_per_field_eq)
    qed
  qed
qed

lemma fieldsToSign_count:
  "length (filter (\<lambda>x. strings_ToLower x = strings_ToLower n) (fieldsToSign m h)) =
     (if strings_ToLower n \<in> strings_ToLower ` set (oversignHeader m)
      then Suc (length (Header_FieldsByKey h n))
      else if strings_ToLower n \<in> strings_ToLower ` set (signHeader m)
      then length (Header_FieldsByKey h n) else 0)"
proof -
  obtain seen1 res1 where l1: "oversign_loop h (oversignHeader m) ({}, []) = (seen1, res1)"
    by (cases "oversign_loop h (oversignHeader m) ({}, [])") auto
  obtain seen2 res2 where l2: "sign_loop h (signHeader m) (seen1, res1) = (seen2, res2)"
    by (cases "sign_loop h (signHeader m) (seen1, res1)") auto
  have r: "fieldsToSign m h = res2"
    by (simp add: fieldsToSign_def l1 l2)
  from oversign_loop_count[OF l1, of n] sign_loop_count[OF l2, of n] show ?thesis
    unfolding r by auto
qed

lemma oversign_loop_set:
  "oversign_loop h keys (seen, res) = (seen', res') \<Longrightarrow> set res' \<subseteq> set res \<union> set keys"
proof (induction keys arbitrary: seen res)
  case Nil
  then show ?case by simp
next
  case (Cons key keys)
  show ?case
  proof (cases "strings_ToLower key \<in> seen")
    case True
    with Cons.prems have "oversign_loop h keys (seen, res) = (seen', res')" by simp
    from Cons.IH[OF this] show ?thesis by auto
  next
    case False
    with Cons.prems have "oversign_loop h keys (insert (strings_ToLower key) seen,
        append_per_field (Header_FieldsByKey h key) key res @ [key]) = (seen', res')" by simp
    from Cons.IH[OF this] show ?thesis
      by (auto simp: append_per_field_eq)
  qed
qed

lemma sign_loop_set:
  "sign_loop h keys (seen, res) = (seen', res') \<Longrightarrow> set res' \<subseteq> set res \<union> set keys"
proof (induction keys arbitrary: seen res)
  case Nil
  then show ?case by simp
next
  case (Cons key keys)
  show ?case
  proof (cases "strings_ToLower key \<in> seen")
    case True
    with Cons.prems have "sign_loop h keys (seen, res) = (seen', res')" by simp
    from Cons.IH[OF this] show ?thesis by auto
  next
    case False
    with Cons.prems have "sign_loop h keys (insert (strings_ToLower key) seen,
        append_per_field (Header_FieldsByKey h key) key res) = (seen', res')" by simp
    from Cons.IH[OF this] show ?thesis
      by (auto simp: append_per_field_eq)
  qed
qed

lemma fieldsToSign_set:
  "set (fieldsToSign m h) \<subseteq> set (oversignHeader m) \<union> set (signHeader m)"
proof -
  obtain seen1 res1 where l1: "oversign_loop h (oversignHeader m) ({}, []) = (seen1, res1)"
    by (cases "oversign_loop h (oversignHeader m) ({}, [])") auto
  obtain seen2 res2 where l2: "sign_loop h (signHeader m) (seen1, res1) = (seen2, res2)"
    by (cases "sign_loop h (signHeader m) (seen1, res1)") auto
  have r: "fieldsToSign m h = res2"
    by (simp add: fieldsToSign_def l1 l2)
  from oversign_loop_set[OF l1] sign_loop_set[OF l2] show ?thesis
    unfolding r by auto
qed

lemma fieldsToSign_count_exact:
  assumes "\<forall>x \<in> set (oversignHeader m) \<union> set (signHeader m).
             strings_ToLower x = strings_ToLower n \<longrightarrow> x = n"
  shows "count_list (fieldsToSign m h) n =
         length (filter (\<lambda>x. strings_ToLower x = strings_ToLower n) (fieldsToSign m h))"
proof -
  have "filter (\<lambda>x. strings_ToLower x = strings_ToLower n) (fieldsToSign m h) =
        filter ((=) n) (fieldsToSign m h)"
    using assms fieldsToSign_set[of m h] by (intro filter_cong) auto
  then show ?thesis by (simp add: count_list_eq_length_filter)
qed
section \<open>Properties of the string functions and of the delivery operations\<close>

lemma lower_byte_idem: "lower_byte (lower_byte c) = lower_byte c"
  by (auto simp: lower_byte_def Let_def)

lemma strings_ToLower_idem: "strings_ToLower (strings_ToLower s) = strings_ToLower s"
  by (simp add: strings_ToLower_def lower_byte_idem)

lemma strings_HasPrefix_single: "strings_HasPrefix s [c] = (\<exists>cs. s = c # cs)"
  by (cases s) auto

lemma strings_Contains_single: "strings_Contains s [c] = (c \<in> set s)"
  by (induction s) (auto simp: strings_HasPrefix_single)

lemma strings_Split_nonempty: "strings_Split s sep \<noteq> []"
  by (induction s) (auto split: list.splits)

lemma strings_Split_first: "strings_Split s sep = takeWhile (\<lambda>c. c \<noteq> sep) s # tl (strings_Split s sep)"
  by (induction s) (auto split: list.splits)

lemma AddRcpt_split_error:
  "\<not> storagePerDomain (store dl) \<Longrightarrow> split rcptTo = Inl msg \<Longrightarrow>
   AddRcpt split ops dl rcptTo =
     (Some (SMTPError 501 (5, 1, 3) (''Invalid recipient address: '' @ msg)), dl)"
  by (simp add: AddRcpt_def)

lemma AddRcpt_known:
  "accountOf split (store dl) rcptTo = Some a \<Longrightarrow> a \<in> addedRcpts dl \<Longrightarrow>
   AddRcpt split ops dl rcptTo = (None, dl)"
  by (auto simp: AddRcpt_def accountOf_def Let_def split: if_splits sum.splits prod.splits)

lemma AddRcpt_new:
  "accountOf split (store dl) rcptTo = Some a \<Longrightarrow> a \<notin> addedRcpts dl \<Longrightarrow>
   AddRcpt split ops dl rcptTo =
     (case d_AddRcpt ops a (Header_Add [] ''Delivered-To'' rcptTo) (d_state dl) of
        (Some err, b) \<Rightarrow>
          (if err = ErrUserDoesntExists \<or> err = ErrNoSuchMailbox
           then (Some (SMTPError 550 (5, 1, 1) ''User doesn't exist''), dl\<lparr>d_state := b\<rparr>)
           else (Some err, dl\<lparr>d_state := b\<rparr>))
      | (None, b) \<Rightarrow> (None, dl\<lparr>d_state := b, addedRcpts := insert a (addedRcpts dl)\<rparr>))"
  by (auto simp: AddRcpt_def accountOf_def Let_def strings_ToLower_idem
           split: if_splits sum.splits prod.splits)

lemma AddRcpt_success_recorded:
  assumes "accountOf split (store dl) rcptTo = Some a"
    and "AddRcpt split ops dl rcptTo = (None, dl1)"
  shows "a \<in> addedRcpts dl1 \<and> store dl1 = store dl"
proof (cases "a \<in> addedRcpts dl")
  case True
  with assms show ?thesis by (simp add: AddRcpt_known)
next
  case False
  with assms show ?thesis
    by (auto simp: AddRcpt_new split: prod.splits option.splits if_splits)
qed

lemma Commit_fields:
  "store (snd (Commit ops dl)) = store dl \<and> addedRcpts (snd (Commit ops dl)) = addedRcpts dl \<and>
   d_state (snd (Commit ops dl)) = snd (d_Commit ops (d_state dl)) \<and>
   fst (Commit ops dl) = fst (d_Commit ops (d_state dl))"
  by (simp add: Commit_def split: prod.splits)

lemma Abort_fields:
  "store (snd (Abort ops dl)) = store dl \<and> addedRcpts (snd (Abort ops dl)) = addedRcpts dl \<and>
   d_state (snd (Abort ops dl)) = snd (d_Abort ops (d_state dl)) \<and>
   fst (Abort ops dl) = fst (d_Abort ops (d_state dl))"
  by (simp add: Abort_def split: prod.splits)

lemma GetOrCreateUser_shared:
  "\<not> storagePerDomain st \<Longrightarrow>
   GetOrCreateUser back st username = back (takeWhile (\<lambda>c. c \<noteq> CHR ''@'') username)"
proof -
  assume s: "\<not> storagePerDomain st"
  obtain p ps where sp: "strings_Split username (CHR ''@'') = p # ps"
    using strings_Split_nonempty[of username "CHR ''@''"]
    by (cases "strings_Split username (CHR ''@'')") auto
  with strings_Split_first[of username "CHR ''@''"]
  have "p = takeWhile (\<lambda>c. c \<noteq> CHR ''@'') username" by simp
  with s sp show ?thesis by (simp add: GetOrCreateUser_def)
qed

section \<open>Header selection: occurrences (C1, C8)\<close>

text \<open>
  C1. As stated, the claim gives every name of the sign list exactly \<open>k\<close> entries,
  \<open>k\<close> being the number of fields of that name in the header set. The code gives a
  name only one turn: a sign-list name that the oversign list has already used is
  skipped. What holds: counting the entries of the result that match the name
  case-insensitively, a name of the oversign list has \<open>k + 1\<close> of them, and a name of
  the sign list that matches no name of the oversign list has \<open>k\<close>; and when the two
  lists hold the name in one spelling only, these are the entries equal to the name.
\<close>

theorem fieldsToSign_occurrences:
  "(n \<in> set (oversignHeader m) \<longrightarrow>
      length (filter (\<lambda>x. strings_ToLower x = strings_ToLower n) (fieldsToSign m h)) =
        Suc (length (Header_FieldsByKey h n))) \<and>
   (n \<in> set (signHeader m) \<and> strings_ToLower n \<notin> strings_ToLower ` set (oversignHeader m) \<longrightarrow>
      length (filter (\<lambda>x. strings_ToLower x = strings_ToLower n) (fieldsToSign m h)) =
        length (Header_FieldsByKey h n)) \<and>
   ((\<forall>x \<in> set (oversignHeader m) \<union> set (signHeader m).
        strings_ToLower x = strings_ToLower n \<longrightarrow> x = n) \<longrightarrow>
      count_list (fieldsToSign m h) n =
        length (filter (\<lambda>x. strings_ToLower x = strings_ToLower n) (fieldsToSign m h)))"
proof (intro conjI impI)
  assume "n \<in> set (oversignHeader m)"
  then have "strings_ToLower n \<in> strings_ToLower ` set (oversignHeader m)" by (rule imageI)
  then show "length (filter (\<lambda>x. strings_ToLower x = strings_ToLower n) (fieldsToSign m h)) =
        Suc (length (Header_FieldsByKey h n))"
    by (simp add: fieldsToSign_count)
next
  assume a: "n \<in> set (signHeader m) \<and> strings_ToLower n \<notin> strings_ToLower ` set (oversignHeader m)"
  then have "strings_ToLower n \<in> strings_ToLower ` set (signHeader m)" by blast
  with a show "length (filter (\<lambda>x. strings_ToLower x = strings_ToLower n) (fieldsToSign m h)) =
        length (Header_FieldsByKey h n)"
    by (simp add: fieldsToSign_count)
next
  assume "\<forall>x \<in> set (oversignHeader m) \<union> set (signHeader m).
        strings_ToLower x = strings_ToLower n \<longrightarrow> x = n"
  then show "count_list (fieldsToSign m h) n =
        length (filter (\<lambda>x. strings_ToLower x = strings_ToLower n) (fieldsToSign m h))"
    by (rule fieldsToSign_count_exact)
qed

text \<open>
  C1, an instance: a header set with two \<open>From\<close> fields (in two spellings), one
  \<open>List-Id\<close> field and no \<open>Subject\<close> field; \<open>From\<close> and \<open>Subject\<close> are oversigned,
  \<open>List-Id\<close> is signed.
\<close>

theorem fieldsToSign_occurrences_witness:
  "count_list (fieldsToSign (test_modifier [''Subject'', ''From''] [''List-Id''])
       [(''from'', ''a@example.org''), (''List-ID'', ''l''), (''From'', ''b@example.org'')])
     ''From'' = 3 \<and>
   count_list (fieldsToSign (test_modifier [''Subject'', ''From''] [''List-Id''])
       [(''from'', ''a@example.org''), (''List-ID'', ''l''), (''From'', ''b@example.org'')])
     ''Subject'' = 1 \<and>
   count_list (fieldsToSign (test_modifier [''Subject'', ''From''] [''List-Id''])
       [(''from'', ''a@example.org''), (''List-ID'', ''l''), (''From'', ''b@example.org'')])
     ''List-Id'' = 1"
proof -
  let ?m = "test_modifier [''Subject'', ''From''] [''List-Id'']"
  let ?h = "[(''from'', ''a@example.org''), (''List-ID'', ''l''), (''From'', ''b@example.org'')]"
  have o1: "''From'' \<in> set (oversignHeader ?m)" by (simp add: test_modifier_def)
  have o2: "''Subject'' \<in> set (oversignHeader ?m)" by (simp add: test_modifier_def)
  have s1: "''List-Id'' \<in> set (signHeader ?m) \<and>
            strings_ToLower ''List-Id'' \<notin> strings_ToLower ` set (oversignHeader ?m)"
    by code_simp
  have u1: "\<forall>x \<in> set (oversignHeader ?m) \<union> set (signHeader ?m).
              strings_ToLower x = strings_ToLower ''From'' \<longrightarrow> x = ''From''"
    by code_simp
  have u2: "\<forall>x \<in> set (oversignHeader ?m) \<union> set (signHeader ?m).
              strings_ToLower x = strings_ToLower ''Subject'' \<longrightarrow> x = ''Subject''"
    by code_simp
  have u3: "\<forall>x \<in> set (oversignHeader ?m) \<union> set (signHeader ?m).
              strings_ToLower x = strings_ToLower ''List-Id'' \<longrightarrow> x = ''List-Id''"
    by code_simp
  have k1: "length (Header_FieldsByKey ?h ''From'') = 2" by code_simp
  have k2: "length (Header_FieldsByKey ?h ''Subject'') = 0" by code_simp
  have k3: "length (Header_FieldsByKey ?h ''List-Id'') = 1" by code_simp
  from fieldsToSign_occurrences[of "''From''" ?m ?h] o1 u1 k1
  have "count_list (fieldsToSign ?m ?h) ''From'' = 3" by simp
  moreover from fieldsToSign_occurrences[of "''Subject''" ?m ?h] o2 u2 k2
  have "count_list (fieldsToSign ?m ?h) ''Subject'' = 1" by simp
  moreover from fieldsToSign_occurrences[of "''List-Id''" ?m ?h] s1 u3 k3
  have "count_list (fieldsToSign ?m ?h) ''List-Id'' = 1" by simp
  ultimately show ?thesis by blast
qed

text \<open>
  C1 fails as stated where a name stands in both lists: \<open>From\<close> is a name of the sign
  list, the empty header set has no \<open>From\<close> field, and the result holds \<open>From\<close> once.
\<close>

theorem fieldsToSign_sign_name_counterexample:
  "''From'' \<in> set (signHeader (test_modifier [''From''] [''From''])) \<and>
   length (Header_FieldsByKey [] ''From'') = 0 \<and>
   count_list (fieldsToSign (test_modifier [''From''] [''From'']) []) ''From'' = 1"
  by code_simp

text \<open>
  C8. A name of the sign list that matches a name of the oversign list up to case is
  processed once, under the oversign rule: the result has \<open>k + 1\<close> entries matching
  it, not \<open>k + 1\<close> from the first loop and \<open>k\<close> more from the second.
\<close>

theorem fieldsToSign_both_lists:
  assumes "a \<in> set (oversignHeader m)" and "b \<in> set (signHeader m)"
    and "strings_ToLower a = strings_ToLower b"
  shows "length (filter (\<lambda>x. strings_ToLower x = strings_ToLower b) (fieldsToSign m h)) =
           Suc (length (Header_FieldsByKey h b))"
proof -
  from assms(1) have "strings_ToLower a \<in> strings_ToLower ` set (oversignHeader m)"
    by (rule imageI)
  with assms(3) show ?thesis by (simp add: fieldsToSign_count)
qed

text \<open>C8, an instance: \<open>From\<close> oversigned, \<open>from\<close> signed, one \<open>FROM\<close> field.\<close>

theorem fieldsToSign_both_lists_witness:
  "length (filter (\<lambda>x. strings_ToLower x = strings_ToLower ''from'')
     (fieldsToSign (test_modifier [''From''] [''from'']) [(''FROM'', ''a@example.org'')])) = 2"
proof -
  let ?m = "test_modifier [''From''] [''from'']"
  have a: "''From'' \<in> set (oversignHeader ?m)" by (simp add: test_modifier_def)
  have b: "''from'' \<in> set (signHeader ?m)" by (simp add: test_modifier_def)
  have c: "strings_ToLower ''From'' = strings_ToLower ''from''" by code_simp
  have k: "length (Header_FieldsByKey [(''FROM'', ''a@example.org'')] ''from'') = 1" by code_simp
  from fieldsToSign_both_lists[OF a b c, of "[(''FROM'', ''a@example.org'')]"] k
  show ?thesis by simp
qed

section \<open>The signing modifier (C5, C9, C10)\<close>

text \<open>
  C9. The identifier handed to the signer is the original envelope sender when that
  contains an \<open>@\<close>, and otherwise the sender, an \<open>@\<close> and the signing domain.
\<close>

theorem signOptions_identifier:
  "(CHR ''@'' \<in> set (OriginalFrom (s_meta s)) \<longrightarrow>
      Identifier (signOptions s h now) = OriginalFrom (s_meta s)) \<and>
   (CHR ''@'' \<notin> set (OriginalFrom (s_meta s)) \<longrightarrow>
      Identifier (signOptions s h now) = OriginalFrom (s_meta s) @ ''@'' @ domain (s_m s))"
  by (simp add: signOptions_def Let_def strings_Contains_single)

text \<open>
  C9, the two examples of the spec: sender \<open>alice\<close> with domain \<open>example.org\<close>, and
  sender \<open>alice@other.org\<close>.
\<close>

theorem signOptions_identifier_witness:
  "Identifier (signOptions (test_state [] [] ''alice'') [] 0) = ''alice@example.org'' \<and>
   Identifier (signOptions (test_state [] [] ''alice@other.org'') [] 0) = ''alice@other.org''"
proof -
  have a: "CHR ''@'' \<notin> set (OriginalFrom (s_meta (test_state [] [] ''alice'')))"
    by (simp add: test_state_def)
  have b: "CHR ''@'' \<in> set (OriginalFrom (s_meta (test_state [] [] ''alice@other.org'')))"
    by (simp add: test_state_def)
  from signOptions_identifier[of "test_state [] [] ''alice''" "[]" 0] a
       signOptions_identifier[of "test_state [] [] ''alice@other.org''" "[]" 0] b
  show ?thesis by (simp add: test_state_def test_modifier_def)
qed

text \<open>
  C10. \<open>RewriteSender\<close> and \<open>RewriteRcpt\<close> return their argument unchanged, with no
  error, for every input.
\<close>

theorem Rewrite_envelope_identity:
  "RewriteSender s addr = (addr, None) \<and> RewriteRcpt s addr = (addr, None)"
  by (simp add: RewriteSender_def RewriteRcpt_def)

text \<open>
  The header fields the caller holds are the same before and after every call of
  \<open>RewriteBody\<close>, and a call that returns an error leaves the whole header value as
  it was.
\<close>

lemma RewriteBody_caller_fields:
  "hv_l (snd (RewriteBody lib now s h body)) = hv_l h"
  by (simp add: RewriteBody_def held_by_caller_def Let_def
           split: sum.splits prod.splits option.splits)

lemma RewriteBody_error_unchanged:
  "fst (RewriteBody lib now s h body) = Some e \<Longrightarrow> snd (RewriteBody lib now s h body) = h"
  by (auto simp: RewriteBody_def Let_def split: sum.splits prod.splits option.splits)

text \<open>
  C5. The claim has a successful \<open>RewriteBody\<close> append one field, named
  \<open>DKIM-Signature\<close>, to the header set. The code calls \<open>h.Add\<close> on its own copy of the
  header. For a message with the one field \<open>Subject: hi\<close> and the body \<open>body\<close>, signed
  by the stand-in signer, \<open>RewriteBody\<close> returns no error and the caller's header
  fields are still the one \<open>Subject\<close> field: the signature is not among them. Only the
  key map, which the caller shares with the copy, has the new field.
\<close>

theorem RewriteBody_signature_not_in_caller_fields:
  "fst (RewriteBody test_lib 0 (test_state [''Subject''] [] ''alice'')
          (HeaderValue_of [(''Subject'', ''hi'')]) (Inr ''body'')) = None \<and>
   hv_l (snd (RewriteBody test_lib 0 (test_state [''Subject''] [] ''alice'')
          (HeaderValue_of [(''Subject'', ''hi'')]) (Inr ''body''))) = [(''Subject'', ''hi'')] \<and>
   map_option (\<lambda>km. km ''dkim-signature'')
     (hv_m (snd (RewriteBody test_lib 0 (test_state [''Subject''] [] ''alice'')
          (HeaderValue_of [(''Subject'', ''hi'')]) (Inr ''body'')))) =
     Some [(''DKIM-Signature'', ''v=1; i=alice@example.org; Subject: hi; body'')] \<and>
   hv_l (HeaderValue_Add (HeaderValue_of [(''Subject'', ''hi'')]) ''DKIM-Signature''
          ''v=1; i=alice@example.org; Subject: hi; body'') =
     [(''Subject'', ''hi''),
      (''DKIM-Signature'', ''v=1; i=alice@example.org; Subject: hi; body'')]"
  by code_simp

section \<open>The delivery (C2, C3, C4, C6, C7)\<close>

text \<open>
  C4. Where \<open>address.Split\<close> fails under the shared policy, \<open>AddRcpt\<close> returns an
  \<open>SMTPError\<close> with code 501 and enhanced code 5.1.3. Where the backend's \<open>AddRcpt\<close>
  is reached and returns an error, \<open>AddRcpt\<close> returns an \<open>SMTPError\<close> with code 550
  and enhanced code 5.1.1 for the two sentinels, and the backend's error itself for
  every other error.
\<close>

theorem AddRcpt_error_codes:
  "(\<not> storagePerDomain (store dl) \<and> split rcptTo = Inl msg \<longrightarrow>
      AddRcpt split ops dl rcptTo =
        (Some (SMTPError 501 (5, 1, 3) (''Invalid recipient address: '' @ msg)), dl)) \<and>
   (accountOf split (store dl) rcptTo = Some a \<and> a \<notin> addedRcpts dl \<and>
    d_AddRcpt ops a [(''Delivered-To'', rcptTo)] (d_state dl) = (Some err, b) \<longrightarrow>
      (err = ErrUserDoesntExists \<or> err = ErrNoSuchMailbox \<longrightarrow>
         fst (AddRcpt split ops dl rcptTo) =
           Some (SMTPError 550 (5, 1, 1) ''User doesn't exist'')) \<and>
      (err \<noteq> ErrUserDoesntExists \<and> err \<noteq> ErrNoSuchMailbox \<longrightarrow>
         fst (AddRcpt split ops dl rcptTo) = Some err))"
proof (intro conjI impI)
  assume "\<not> storagePerDomain (store dl) \<and> split rcptTo = Inl msg"
  then show "AddRcpt split ops dl rcptTo =
        (Some (SMTPError 501 (5, 1, 3) (''Invalid recipient address: '' @ msg)), dl)"
    by (simp add: AddRcpt_split_error)
next
  assume h: "accountOf split (store dl) rcptTo = Some a \<and> a \<notin> addedRcpts dl \<and>
    d_AddRcpt ops a [(''Delivered-To'', rcptTo)] (d_state dl) = (Some err, b)"
    and s: "err = ErrUserDoesntExists \<or> err = ErrNoSuchMailbox"
  from h have "AddRcpt split ops dl rcptTo =
      (Some (SMTPError 550 (5, 1, 1) ''User doesn't exist''), dl\<lparr>d_state := b\<rparr>)"
    using s by (simp add: AddRcpt_new Header_Add_def)
  then show "fst (AddRcpt split ops dl rcptTo) =
           Some (SMTPError 550 (5, 1, 1) ''User doesn't exist'')" by simp
next
  assume h: "accountOf split (store dl) rcptTo = Some a \<and> a \<notin> addedRcpts dl \<and>
    d_AddRcpt ops a [(''Delivered-To'', rcptTo)] (d_state dl) = (Some err, b)"
    and s: "err \<noteq> ErrUserDoesntExists \<and> err \<noteq> ErrNoSuchMailbox"
  from h have "AddRcpt split ops dl rcptTo = (Some err, dl\<lparr>d_state := b\<rparr>)"
    using s by (simp add: AddRcpt_new Header_Add_def)
  then show "fst (AddRcpt split ops dl rcptTo) = Some err" by simp
qed
text \<open>
  C4, three runs: a split function that fails, an account the backend does not know,
  and a backend that refuses the call with an error of its own.
\<close>

theorem AddRcpt_error_codes_witness:
  "AddRcpt (\<lambda>addr. Inl ''address: missing at-sign'') test_ops (test_start False [''bob'']) ''bob'' =
     (Some (SMTPError 501 (5, 1, 3) ''Invalid recipient address: address: missing at-sign''),
      test_start False [''bob'']) \<and>
   fst (AddRcpt address_Split test_ops (test_start False [''bob'']) ''alice@example.org'') =
     Some (SMTPError 550 (5, 1, 1) ''User doesn't exist'') \<and>
   fst (AddRcpt address_Split test_ops (snd (Abort test_ops (test_start False [''bob''])))
          ''bob@example.org'') =
     Some (Err ''delivery is finished'')"
proof -
  let ?dl = "test_start False [''bob'']"
  let ?dl2 = "snd (Abort test_ops ?dl)"
  let ?bad = "\<lambda>addr::string. (Inl ''address: missing at-sign'' :: string + string \<times> string)"
  have p: "\<not> storagePerDomain (store ?dl) \<and> ?bad ''bob'' = Inl ''address: missing at-sign''"
    by code_simp
  have c1: "AddRcpt ?bad test_ops ?dl ''bob'' =
     (Some (SMTPError 501 (5, 1, 3) (''Invalid recipient address: '' @ ''address: missing at-sign'')), ?dl)"
    using AddRcpt_error_codes[where split = ?bad and dl = ?dl and rcptTo = "''bob''"
            and msg = "''address: missing at-sign''" and ops = test_ops] p
    by blast
  have q: "accountOf address_Split (store ?dl) ''alice@example.org'' = Some ''alice'' \<and>
           ''alice'' \<notin> addedRcpts ?dl \<and>
           d_AddRcpt test_ops ''alice'' [(''Delivered-To'', ''alice@example.org'')] (d_state ?dl) =
             (Some ErrUserDoesntExists, d_state ?dl)"
    by code_simp
  have c2: "fst (AddRcpt address_Split test_ops ?dl ''alice@example.org'') =
     Some (SMTPError 550 (5, 1, 1) ''User doesn't exist'')"
    using AddRcpt_error_codes[where split = address_Split and dl = ?dl
            and rcptTo = "''alice@example.org''" and a = "''alice''" and ops = test_ops
            and err = ErrUserDoesntExists and b = "d_state ?dl"] q
    by blast
  have r: "accountOf address_Split (store ?dl2) ''bob@example.org'' = Some ''bob'' \<and>
           ''bob'' \<notin> addedRcpts ?dl2 \<and>
           d_AddRcpt test_ops ''bob'' [(''Delivered-To'', ''bob@example.org'')] (d_state ?dl2) =
             (Some (Err ''delivery is finished''), d_state ?dl2)"
    by code_simp
  have c3: "fst (AddRcpt address_Split test_ops ?dl2 ''bob@example.org'') =
     Some (Err ''delivery is finished'')"
    using AddRcpt_error_codes[where split = address_Split and dl = ?dl2
            and rcptTo = "''bob@example.org''" and a = "''bob''" and ops = test_ops
            and err = "Err ''delivery is finished''" and b = "d_state ?dl2"] r
    by blast
  from c1 c2 c3 show ?thesis by simp
qed

text \<open>
  C7. Within one delivery, after an \<open>AddRcpt\<close> that succeeded, an \<open>AddRcpt\<close> whose
  recipient resolves to the same account returns success and leaves the delivery as
  it is: the backend's state is the same (for every backend, so the backend is not
  called) and so is the set of accounts. More generally this holds whenever the
  account is in the set. An \<open>AddRcpt\<close> for an account that is not in the set calls the
  backend and, when the backend accepts, succeeds and adds that account to the set.
\<close>

theorem AddRcpt_deduplicates:
  "(accountOf split (store dl) r1 = Some a \<and> AddRcpt split ops dl r1 = (None, dl1) \<and>
    accountOf split (store dl) r2 = Some a \<longrightarrow>
      AddRcpt split ops dl1 r2 = (None, dl1)) \<and>
   (accountOf split (store dl) rcptTo = Some a \<and> a \<in> addedRcpts dl \<longrightarrow>
      AddRcpt split ops dl rcptTo = (None, dl)) \<and>
   (accountOf split (store dl) rcptTo = Some a \<and> a \<notin> addedRcpts dl \<and>
    d_AddRcpt ops a [(''Delivered-To'', rcptTo)] (d_state dl) = (None, b) \<longrightarrow>
      AddRcpt split ops dl rcptTo =
        (None, dl\<lparr>d_state := b, addedRcpts := insert a (addedRcpts dl)\<rparr>))"
proof (intro conjI impI)
  assume h: "accountOf split (store dl) r1 = Some a \<and> AddRcpt split ops dl r1 = (None, dl1) \<and>
    accountOf split (store dl) r2 = Some a"
  then have "a \<in> addedRcpts dl1 \<and> store dl1 = store dl"
    using AddRcpt_success_recorded[of split dl r1 a ops dl1] by simp
  with h show "AddRcpt split ops dl1 r2 = (None, dl1)"
    by (simp add: AddRcpt_known)
next
  assume "accountOf split (store dl) rcptTo = Some a \<and> a \<in> addedRcpts dl"
  then show "AddRcpt split ops dl rcptTo = (None, dl)"
    by (simp add: AddRcpt_known)
next
  assume "accountOf split (store dl) rcptTo = Some a \<and> a \<notin> addedRcpts dl \<and>
    d_AddRcpt ops a [(''Delivered-To'', rcptTo)] (d_state dl) = (None, b)"
  then show "AddRcpt split ops dl rcptTo =
        (None, dl\<lparr>d_state := b, addedRcpts := insert a (addedRcpts dl)\<rparr>)"
    by (simp add: AddRcpt_new Header_Add_def)
qed

text \<open>
  C7, a run: \<open>Bob@example.org\<close>, then \<open>bob@example.net\<close> (the same account under the
  shared policy), then \<open>carol@example.org\<close>. The backend is given \<open>bob\<close> once, then
  \<open>carol\<close>.
\<close>

theorem AddRcpt_deduplicates_witness:
  "AddRcpt address_Split test_ops
     (snd (AddRcpt address_Split test_ops (test_start False [''bob'', ''carol''])
             ''Bob@example.org''))
     ''bob@example.net'' =
   (None, snd (AddRcpt address_Split test_ops (test_start False [''bob'', ''carol''])
                 ''Bob@example.org'')) \<and>
   given (d_state (snd (AddRcpt address_Split test_ops (test_start False [''bob'', ''carol''])
                          ''Bob@example.org''))) = [''bob''] \<and>
   AddRcpt address_Split test_ops
     (snd (AddRcpt address_Split test_ops (test_start False [''bob'', ''carol''])
             ''Bob@example.org''))
     ''carol@example.org'' =
   (None, (test_start False [''bob'', ''carol''])
            \<lparr>d_state := \<lparr>known = [''bob'', ''carol''], given = [''bob'', ''carol''],
                          finished = False\<rparr>,
             addedRcpts := {''carol'', ''bob''}\<rparr>)"
proof -
  let ?dl = "test_start False [''bob'', ''carol'']"
  let ?dl1 = "snd (AddRcpt address_Split test_ops ?dl ''Bob@example.org'')"
  have a1: "accountOf address_Split (store ?dl) ''Bob@example.org'' = Some ''bob''"
    by code_simp
  have a2: "accountOf address_Split (store ?dl) ''bob@example.net'' = Some ''bob''"
    by code_simp
  have ok: "fst (AddRcpt address_Split test_ops ?dl ''Bob@example.org'') = None"
    by code_simp
  then have r1: "AddRcpt address_Split test_ops ?dl ''Bob@example.org'' = (None, ?dl1)"
    by (simp add: prod_eq_iff)
  have g: "given (d_state ?dl1) = [''bob'']" by code_simp
  have "AddRcpt address_Split test_ops ?dl1 ''bob@example.net'' = (None, ?dl1)"
    using AddRcpt_deduplicates[where split = address_Split and dl = ?dl and ops = test_ops
            and ?r1.0 = "''Bob@example.org''" and a = "''bob''" and ?dl1.0 = ?dl1
            and ?r2.0 = "''bob@example.net''"] a1 a2 r1
    by blast
  moreover have a3: "accountOf address_Split (store ?dl1) ''carol@example.org'' = Some ''carol''"
    by code_simp
  have n3: "''carol'' \<notin> addedRcpts ?dl1" by code_simp
  have b3: "d_AddRcpt test_ops ''carol'' [(''Delivered-To'', ''carol@example.org'')] (d_state ?dl1) =
      (None, \<lparr>known = [''bob'', ''carol''], given = [''bob'', ''carol''], finished = False\<rparr>)"
    by code_simp
  have "AddRcpt address_Split test_ops ?dl1 ''carol@example.org'' =
      (None, ?dl1\<lparr>d_state := \<lparr>known = [''bob'', ''carol''], given = [''bob'', ''carol''],
                                finished = False\<rparr>,
                   addedRcpts := insert ''carol'' (addedRcpts ?dl1)\<rparr>)"
    using AddRcpt_deduplicates[where split = address_Split and dl = ?dl1 and ops = test_ops
            and rcptTo = "''carol@example.org''" and a = "''carol''"
            and b = "\<lparr>known = [''bob'', ''carol''], given = [''bob'', ''carol''], finished = False\<rparr>"]
          a3 n3 b3
    by blast
  moreover have "?dl1\<lparr>d_state := \<lparr>known = [''bob'', ''carol''], given = [''bob'', ''carol''],
                                finished = False\<rparr>,
                   addedRcpts := insert ''carol'' (addedRcpts ?dl1)\<rparr> =
     ?dl\<lparr>d_state := \<lparr>known = [''bob'', ''carol''], given = [''bob'', ''carol''],
                          finished = False\<rparr>,
             addedRcpts := {''carol'', ''bob''}\<rparr>"
    by code_simp
  ultimately show ?thesis using g by simp
qed

text \<open>
  C2. As stated, the claim has every call after a terminal call rejected. The
  \<open>delivery\<close> struct has no finalized flag: \<open>Commit\<close> and \<open>Abort\<close> pass the call to
  the backend and return what it returns, whatever was called before, so a second
  terminal call is rejected exactly when the backend rejects it. \<open>AddRcpt\<close> after
  \<open>Commit\<close> for an account that is not in the set is rejected exactly when the
  backend rejects it; for an account in the set it returns success without asking
  the backend.
\<close>

theorem delivery_keeps_no_finalized_state:
  "fst (Commit ops (snd (Commit ops dl))) = fst (d_Commit ops (snd (d_Commit ops (d_state dl)))) \<and>
   fst (Abort ops (snd (Abort ops dl))) = fst (d_Abort ops (snd (d_Abort ops (d_state dl)))) \<and>
   fst (Abort ops (snd (Commit ops dl))) = fst (d_Abort ops (snd (d_Commit ops (d_state dl)))) \<and>
   fst (Commit ops (snd (Abort ops dl))) = fst (d_Commit ops (snd (d_Abort ops (d_state dl)))) \<and>
   (accountOf split (store dl) rcptTo = Some a \<and> a \<in> addedRcpts dl \<longrightarrow>
      AddRcpt split ops (snd (Commit ops dl)) rcptTo = (None, snd (Commit ops dl))) \<and>
   (accountOf split (store dl) rcptTo = Some a \<and> a \<notin> addedRcpts dl \<longrightarrow>
      (fst (AddRcpt split ops (snd (Commit ops dl)) rcptTo) = None) =
      (fst (d_AddRcpt ops a [(''Delivered-To'', rcptTo)] (snd (d_Commit ops (d_state dl)))) = None))"
proof (intro conjI impI)
  assume "accountOf split (store dl) rcptTo = Some a \<and> a \<in> addedRcpts dl"
  then show "AddRcpt split ops (snd (Commit ops dl)) rcptTo = (None, snd (Commit ops dl))"
    by (simp add: AddRcpt_known Commit_fields)
next
  assume "accountOf split (store dl) rcptTo = Some a \<and> a \<notin> addedRcpts dl"
  then have "accountOf split (store (snd (Commit ops dl))) rcptTo = Some a"
    and "a \<notin> addedRcpts (snd (Commit ops dl))"
    by (simp_all add: Commit_fields)
  then show "(fst (AddRcpt split ops (snd (Commit ops dl)) rcptTo) = None) =
      (fst (d_AddRcpt ops a [(''Delivered-To'', rcptTo)] (snd (d_Commit ops (d_state dl)))) = None)"
    by (simp add: AddRcpt_new Header_Add_def Commit_fields split: prod.splits option.splits)
qed (simp_all add: Commit_fields Abort_fields)

text \<open>
  C2, runs with the backend that refuses every call after \<open>Commit\<close>: a second
  \<open>Commit\<close>, an \<open>Abort\<close> and an \<open>AddRcpt\<close> for a new account are rejected, an
  \<open>AddRcpt\<close> for an account of the set is not.
\<close>

theorem delivery_keeps_no_finalized_state_witness:
  "fst (Commit test_ops (snd (Commit test_ops (test_start False [''bob''])))) =
     Some (Err ''delivery is finished'') \<and>
   fst (Abort test_ops (snd (Commit test_ops (test_start False [''bob''])))) =
     Some (Err ''delivery is finished'') \<and>
   fst (AddRcpt address_Split test_ops (snd (Commit test_ops (test_start False [''bob''])))
          ''bob@example.org'') \<noteq> None \<and>
   AddRcpt address_Split test_ops
     (snd (Commit test_ops ((test_start False [''bob''])\<lparr>addedRcpts := {''bob''}\<rparr>)))
     ''bob@example.org'' =
   (None, snd (Commit test_ops ((test_start False [''bob''])\<lparr>addedRcpts := {''bob''}\<rparr>)))"
proof -
  let ?dl = "test_start False [''bob'']"
  let ?dl' = "?dl\<lparr>addedRcpts := {''bob''}\<rparr>"
  have b1: "fst (d_Commit test_ops (snd (d_Commit test_ops (d_state ?dl)))) =
              Some (Err ''delivery is finished'')"
    by code_simp
  have b2: "fst (d_Abort test_ops (snd (d_Commit test_ops (d_state ?dl)))) =
              Some (Err ''delivery is finished'')"
    by code_simp
  have a: "accountOf address_Split (store ?dl) ''bob@example.org'' = Some ''bob'' \<and>
           ''bob'' \<notin> addedRcpts ?dl"
    by code_simp
  have b3: "fst (d_AddRcpt test_ops ''bob'' [(''Delivered-To'', ''bob@example.org'')]
                   (snd (d_Commit test_ops (d_state ?dl)))) \<noteq> None"
    by code_simp
  have a': "accountOf address_Split (store ?dl') ''bob@example.org'' = Some ''bob'' \<and>
            ''bob'' \<in> addedRcpts ?dl'"
    by code_simp
  note t = delivery_keeps_no_finalized_state[where ops = test_ops and dl = ?dl
             and split = address_Split and rcptTo = "''bob@example.org''" and a = "''bob''"]
  note t' = delivery_keeps_no_finalized_state[where ops = test_ops and dl = ?dl'
             and split = address_Split and rcptTo = "''bob@example.org''" and a = "''bob''"]
  from t b1 have c1: "fst (Commit test_ops (snd (Commit test_ops ?dl))) =
     Some (Err ''delivery is finished'')" by simp
  from t b2 have c2: "fst (Abort test_ops (snd (Commit test_ops ?dl))) =
     Some (Err ''delivery is finished'')" by simp
  from t a b3 have c3: "fst (AddRcpt address_Split test_ops (snd (Commit test_ops ?dl))
          ''bob@example.org'') \<noteq> None" by blast
  from t' a' have c4: "AddRcpt address_Split test_ops (snd (Commit test_ops ?dl')) ''bob@example.org'' =
     (None, snd (Commit test_ops ?dl'))" by blast
  from c1 c2 c3 c4 show ?thesis by blast
qed

text \<open>
  C2 fails as stated: \<open>AddRcpt\<close>, \<open>Commit\<close>, and the same \<open>AddRcpt\<close> again. The third
  call succeeds, though the delivery is committed and the backend would refuse it.
\<close>

theorem AddRcpt_after_Commit_counterexample:
  "fst (AddRcpt address_Split test_ops (test_start False [''bob'']) ''bob@example.org'') = None \<and>
   fst (Commit test_ops
         (snd (AddRcpt address_Split test_ops (test_start False [''bob'']) ''bob@example.org''))) = None \<and>
   fst (AddRcpt address_Split test_ops
         (snd (Commit test_ops
           (snd (AddRcpt address_Split test_ops (test_start False [''bob'']) ''bob@example.org''))))
         ''bob@example.org'') = None"
  by code_simp

text \<open>
  C3. As stated, the claim has \<open>AddRcpt\<close> under the per-domain policy fail for a
  recipient without \<open>@\<close>. The check for \<open>@\<close> is in \<open>GetOrCreateUser\<close> only;
  \<open>AddRcpt\<close> under the per-domain policy takes the whole recipient, lower-cased, as
  the account and hands it to the backend (its comment says that \<open>postmaster\<close> is
  accepted under both policies). Under the shared policy \<open>GetOrCreateUser\<close> with a
  name without \<open>@\<close> calls the backend with that name, and \<open>AddRcpt\<close> hands the
  backend the lower-cased local part that \<open>address.Split\<close> returns.
\<close>

theorem account_resolution_policies:
  "(storagePerDomain st \<and> CHR ''@'' \<notin> set username \<longrightarrow>
      GetOrCreateUser backend st username =
        Inl (Err ''GetOrCreateUser: username@domain required'')) \<and>
   (storagePerDomain (store dl) \<and> strings_ToLower rcptTo \<notin> addedRcpts dl \<and>
    d_AddRcpt ops (strings_ToLower rcptTo) [(''Delivered-To'', rcptTo)] (d_state dl) = (None, b) \<longrightarrow>
      AddRcpt split ops dl rcptTo =
        (None, dl\<lparr>d_state := b,
                  addedRcpts := insert (strings_ToLower rcptTo) (addedRcpts dl)\<rparr>)) \<and>
   (\<not> storagePerDomain st \<and> CHR ''@'' \<notin> set username \<longrightarrow>
      GetOrCreateUser backend st username = backend username) \<and>
   (\<not> storagePerDomain (store dl) \<and> split rcptTo = Inr (mailbox, domainPart) \<and>
    strings_ToLower mailbox \<notin> addedRcpts dl \<and>
    d_AddRcpt ops (strings_ToLower mailbox) [(''Delivered-To'', rcptTo)] (d_state dl) = (None, b) \<longrightarrow>
      AddRcpt split ops dl rcptTo =
        (None, dl\<lparr>d_state := b,
                  addedRcpts := insert (strings_ToLower mailbox) (addedRcpts dl)\<rparr>))"
proof (intro conjI impI)
  assume "storagePerDomain st \<and> CHR ''@'' \<notin> set username"
  then show "GetOrCreateUser backend st username =
        Inl (Err ''GetOrCreateUser: username@domain required'')"
    by (simp add: GetOrCreateUser_def strings_Contains_single)
next
  assume h: "storagePerDomain (store dl) \<and> strings_ToLower rcptTo \<notin> addedRcpts dl \<and>
    d_AddRcpt ops (strings_ToLower rcptTo) [(''Delivered-To'', rcptTo)] (d_state dl) = (None, b)"
  then have "accountOf split (store dl) rcptTo = Some (strings_ToLower rcptTo)"
    by (simp add: accountOf_def)
  with h show "AddRcpt split ops dl rcptTo =
        (None, dl\<lparr>d_state := b,
                  addedRcpts := insert (strings_ToLower rcptTo) (addedRcpts dl)\<rparr>)"
    by (simp add: AddRcpt_new Header_Add_def)
next
  assume h: "\<not> storagePerDomain st \<and> CHR ''@'' \<notin> set username"
  then have ns: "\<not> storagePerDomain st" by simp
  from h have tw: "takeWhile (\<lambda>c. c \<noteq> CHR ''@'') username = username"
    by (simp add: takeWhile_eq_all_conv) blast
  show "GetOrCreateUser backend st username = backend username"
    using GetOrCreateUser_shared[OF ns, of backend username] by (simp only: tw)
next
  assume h: "\<not> storagePerDomain (store dl) \<and> split rcptTo = Inr (mailbox, domainPart) \<and>
    strings_ToLower mailbox \<notin> addedRcpts dl \<and>
    d_AddRcpt ops (strings_ToLower mailbox) [(''Delivered-To'', rcptTo)] (d_state dl) = (None, b)"
  then have "accountOf split (store dl) rcptTo = Some (strings_ToLower mailbox)"
    by (simp add: accountOf_def)
  with h show "AddRcpt split ops dl rcptTo =
        (None, dl\<lparr>d_state := b,
                  addedRcpts := insert (strings_ToLower mailbox) (addedRcpts dl)\<rparr>)"
    by (simp add: AddRcpt_new Header_Add_def)
qed

text \<open>
  C3, the address \<open>bob\<close>: \<open>GetOrCreateUser\<close> and \<open>AddRcpt\<close> under each policy (the
  backend of \<open>GetOrCreateUser\<close> returns the account name it is called with).
\<close>

theorem account_resolution_policies_witness:
  "GetOrCreateUser (Inr :: string \<Rightarrow> error + string) (test_store True) ''bob'' =
     Inl (Err ''GetOrCreateUser: username@domain required'') \<and>
   GetOrCreateUser (Inr :: string \<Rightarrow> error + string) (test_store False) ''bob'' = Inr ''bob'' \<and>
   AddRcpt address_Split test_ops (test_start True [''bob'']) ''bob'' =
     (None, (test_start True [''bob''])
              \<lparr>d_state := \<lparr>known = [''bob''], given = [''bob''], finished = False\<rparr>,
               addedRcpts := {''bob''}\<rparr>) \<and>
   AddRcpt address_Split test_ops (test_start False [''bob'']) ''bob'' =
     (None, (test_start False [''bob''])
              \<lparr>d_state := \<lparr>known = [''bob''], given = [''bob''], finished = False\<rparr>,
               addedRcpts := {''bob''}\<rparr>)"
proof -
  let ?echo = "Inr :: string \<Rightarrow> error + string"
  let ?b = "\<lparr>known = [''bob''], given = [''bob''], finished = False\<rparr>"
  have g1: "storagePerDomain (test_store True) \<and> CHR ''@'' \<notin> set ''bob''" by code_simp
  have g2: "\<not> storagePerDomain (test_store False) \<and> CHR ''@'' \<notin> set ''bob''" by code_simp
  have p: "storagePerDomain (store (test_start True [''bob''])) \<and>
           strings_ToLower ''bob'' \<notin> addedRcpts (test_start True [''bob'']) \<and>
           d_AddRcpt test_ops (strings_ToLower ''bob'') [(''Delivered-To'', ''bob'')]
             (d_state (test_start True [''bob''])) = (None, ?b)"
    by code_simp
  have q: "\<not> storagePerDomain (store (test_start False [''bob''])) \<and>
           address_Split ''bob'' = Inr (''bob'', '''') \<and>
           strings_ToLower ''bob'' \<notin> addedRcpts (test_start False [''bob'']) \<and>
           d_AddRcpt test_ops (strings_ToLower ''bob'') [(''Delivered-To'', ''bob'')]
             (d_state (test_start False [''bob''])) = (None, ?b)"
    by code_simp
  have l: "strings_ToLower ''bob'' = ''bob''" by code_simp
  note t1 = account_resolution_policies[where st = "test_store True" and username = "''bob''"
              and backend = ?echo and dl = "test_start True [''bob'']" and rcptTo = "''bob''"
              and ops = test_ops and b = ?b and split = address_Split]
  note t2 = account_resolution_policies[where st = "test_store False" and username = "''bob''"
              and backend = ?echo and dl = "test_start False [''bob'']" and rcptTo = "''bob''"
              and ops = test_ops and b = ?b and split = address_Split
              and mailbox = "''bob''" and domainPart = "''''"]
  from t1 g1 have c1: "GetOrCreateUser ?echo (test_store True) ''bob'' =
     Inl (Err ''GetOrCreateUser: username@domain required'')" by blast
  from t2 g2 have c2: "GetOrCreateUser ?echo (test_store False) ''bob'' = Inr ''bob''" by blast
  from t1 p have c3: "AddRcpt address_Split test_ops (test_start True [''bob'']) ''bob'' =
     (None, (test_start True [''bob''])
              \<lparr>d_state := ?b, addedRcpts := insert (strings_ToLower ''bob'')
                  (addedRcpts (test_start True [''bob'']))\<rparr>)" by blast
  from t2 q have c4: "AddRcpt address_Split test_ops (test_start False [''bob'']) ''bob'' =
     (None, (test_start False [''bob''])
              \<lparr>d_state := ?b, addedRcpts := insert (strings_ToLower ''bob'')
                  (addedRcpts (test_start False [''bob'']))\<rparr>)" by blast
  have e: "addedRcpts (test_start True [''bob'']) = {}" "addedRcpts (test_start False [''bob'']) = {}"
    by (simp_all add: test_start_def)
  from c1 c2 c3 c4 show ?thesis by (simp add: l e)
qed

text \<open>
  C3 fails as stated: under the per-domain policy \<open>AddRcpt\<close> accepts the recipient
  \<open>bob\<close>, and the backend is given the account \<open>bob\<close>.
\<close>

theorem AddRcpt_perDomain_counterexample:
  "storagePerDomain (store (test_start True [''bob''])) \<and>
   CHR ''@'' \<notin> set ''bob'' \<and>
   fst (AddRcpt address_Split test_ops (test_start True [''bob'']) ''bob'') = None \<and>
   given (d_state (snd (AddRcpt address_Split test_ops (test_start True [''bob'']) ''bob''))) =
     [''bob'']"
  by code_simp

text \<open>
  C6. \<open>AddRcpt\<close> lower-cases the account name under both policies;
  \<open>GetOrCreateUser\<close> does not. For the username \<open>Bob@Example.org\<close> the backend's
  \<open>GetOrCreateUser\<close> is called with \<open>Bob@Example.org\<close> (per-domain) and \<open>Bob\<close>
  (shared), while \<open>AddRcpt\<close> for the same address gives the backend
  \<open>bob@example.org\<close> and \<open>bob\<close>.
\<close>

theorem GetOrCreateUser_keeps_case:
  "GetOrCreateUser (Inr :: string \<Rightarrow> error + string) (test_store True) ''Bob@Example.org'' =
     Inr ''Bob@Example.org'' \<and>
   GetOrCreateUser (Inr :: string \<Rightarrow> error + string) (test_store False) ''Bob@Example.org'' =
     Inr ''Bob'' \<and>
   given (d_state (snd (AddRcpt address_Split test_ops (test_start True [''bob@example.org''])
                          ''Bob@Example.org''))) = [''bob@example.org''] \<and>
   given (d_state (snd (AddRcpt address_Split test_ops (test_start False [''bob''])
                          ''Bob@Example.org''))) = [''bob'']"
  by code_simp

end
